theory Spec2Isabelle
  imports Complex_Main
begin

unbundle bit_operations_syntax

section \<open>Python values\<close>

text \<open>
  A Python float is modelled by the number it holds: a rational (every finite binary64
  value is one; the two zeros are not told apart, and the program never observes the
  difference, as \<open>int(-0.0)\<close> is \<open>0\<close>), or one of the three special values.
  A Python int is an unbounded \<open>int\<close>.
\<close>

datatype pyfloat = Finite rat | PosInf | NegInf | NaN

datatype pynum = PInt int | PFloat pyfloat

text \<open>
  What \<open>float()\<close> can be applied to in this program: a number, a string (the command-line
  token, or a JSON string of the response), or a value that is neither (JSON null, array
  or object), written \<open>VNone\<close>. JSON booleans behave as the ints 1 and 0.
\<close>

datatype pyval = VNum pynum | VStr string | VNone

datatype error = KeyError | IndexError | ValueError | TypeError | OverflowError | RequestError

section \<open>The world outside the script\<close>

text \<open>
  The two request shapes of the script:
  \<open>GET {server}/{auth}/update/{pin}?value={value}\<close> and \<open>GET {server}/{auth}/get/{pin}\<close>.
  A request is kept with its fields rather than as the formatted URL.
\<close>

datatype request = Update string string pynum | Get string string

text \<open>
  What comes back: \<open>Failed\<close> when \<open>requests.get\<close> raises or when \<open>r.json()[0]\<close> does;
  otherwise the first element of the JSON array (for an update the body is not looked at).
\<close>

datatype reply = Failed | Body pyval

text \<open>
  The parts of the run that are not code of the script: Python's parser of float
  literals (\<open>float(s)\<close> for a string \<open>s\<close>, \<open>None\<close> when it raises ValueError), Python's
  text of a float (\<open>str\<close>, which a format specification without a type agrees with), and
  the remote service, which answers a request knowing the requests
  issued before it.
\<close>

record world =
  float_of_str :: "string \<Rightarrow> pyfloat option"
  str_of_float :: "pyfloat \<Rightarrow> string"
  http :: "request list \<Rightarrow> request \<Rightarrow> reply"

section \<open>The configuration table\<close>

text \<open>
  An entry of \<open>all_devices\<close>. Every entry of the script has \<open>pin\<close> and \<open>auth\<close>;
  \<open>default\<close> and \<open>group\<close> may be absent.
\<close>

record device =
  pin :: string
  auth :: string
  default_state :: "int option"
  group_name :: "string option"

text \<open>
  The three global tables. A Python dict keeps its keys in insertion order, so
  \<open>all_devices\<close> is a list of pairs; \<open>map_of\<close> is the lookup and \<open>map fst\<close> is \<open>keys()\<close>.
\<close>

record config =
  all_devices :: "(string \<times> device) list"
  exclude :: "string list"
  groups :: "string list"

definition blynk_config :: config where
  "blynk_config = \<lparr>
     all_devices =
       [(''bedroom_light'', \<lparr>pin = ''V3'', auth = ''<auth_token>'',
                              default_state = Some 0, group_name = Some ''bedroom''\<rparr>),
        (''kitchen_light'', \<lparr>pin = ''d2'', auth = ''<auth_token>'',
                              default_state = Some 1, group_name = Some ''kitchen''\<rparr>),
        (''temperature'', \<lparr>pin = ''V6'', auth = ''<auth_token>'',
                            default_state = None, group_name = None\<rparr>),
        (''humidity'', \<lparr>pin = ''V5'', auth = ''<auth_token>'',
                         default_state = None, group_name = None\<rparr>)],
     exclude = [''temperature'', ''humidity''],
     groups = [''bedroom'', ''kitchen'']\<rparr>"

section \<open>Conversions of the Python runtime\<close>

fun bit_length :: "nat \<Rightarrow> nat" where
  "bit_length n = (if n = 0 then 0 else Suc (bit_length (n div 2)))"

declare bit_length.simps [simp del]

text \<open>
  \<open>float(i)\<close> for an int: exact below \<open>2^53\<close>, otherwise rounded to 53 significant bits,
  ties to even, and OverflowError when the result does not fit a binary64.
\<close>

definition float_of_int :: "int \<Rightarrow> error + pyfloat" where
  "float_of_int i =
     (let a = nat \<bar>i\<bar> in
      if a < 2 ^ 53 then Inr (Finite (of_int i))
      else
        let e = bit_length a - 53;
            q = a div 2 ^ e;
            r = a mod 2 ^ e;
            h = 2 ^ (e - 1);
            q' = (if h < r \<or> (r = h \<and> odd q) then q + 1 else q);
            m = q' * 2 ^ e
        in if 2 ^ 1024 \<le> m then Inl OverflowError
           else Inr (Finite (of_int (sgn i * int m))))"

definition py_float :: "world \<Rightarrow> pyval \<Rightarrow> error + pyfloat" where
  "py_float w v =
     (case v of
        VNum (PInt i) \<Rightarrow> float_of_int i
      | VNum (PFloat f) \<Rightarrow> Inr f
      | VStr s \<Rightarrow> (case float_of_str w s of None \<Rightarrow> Inl ValueError | Some f \<Rightarrow> Inr f)
      | VNone \<Rightarrow> Inl TypeError)"

fun is_integer :: "pyfloat \<Rightarrow> bool" where
  "is_integer (Finite q) = (of_int \<lfloor>q\<rfloor> = q)"
| "is_integer PosInf = False"
| "is_integer NegInf = False"
| "is_integer NaN = False"

text \<open>\<open>int(f)\<close> truncates towards zero and raises on the special values.\<close>

fun py_int :: "pyfloat \<Rightarrow> error + int" where
  "py_int (Finite q) = Inr (if 0 \<le> q then \<lfloor>q\<rfloor> else \<lceil>q\<rceil>)"
| "py_int PosInf = Inl OverflowError"
| "py_int NegInf = Inl OverflowError"
| "py_int NaN = Inl ValueError"

section \<open>The pin value codec\<close>

definition process_pin :: "world \<Rightarrow> pyval \<Rightarrow> int \<Rightarrow> error + pynum" where
  "process_pin w v default_st =
     (case py_float w v of
        Inl e \<Rightarrow> Inl e
      | Inr f \<Rightarrow>
          if is_integer f
          then (case py_int f of Inl e \<Rightarrow> Inl e | Inr i \<Rightarrow> Inr (PInt (i XOR default_st)))
          else Inr (PFloat f))"

text \<open>Running the codec on the result of a first run, when that one returns.\<close>

definition process_pin_twice :: "world \<Rightarrow> pyval \<Rightarrow> int \<Rightarrow> error + pynum" where
  "process_pin_twice w v d =
     (case process_pin w v d of Inl e \<Rightarrow> Inl e | Inr x \<Rightarrow> process_pin w (VNum x) d)"

section \<open>Requests\<close>

text \<open>
  A function of the script that talks to the service takes the requests issued so far and
  returns its result, or the exception it raised, with the requests issued up to then.
\<close>

type_synonym 'a io = "request list \<Rightarrow> (error + 'a) \<times> request list"

definition return_io :: "'a \<Rightarrow> 'a io" where
  "return_io x = (\<lambda>h. (Inr x, h))"

definition raise_io :: "error \<Rightarrow> 'a io" where
  "raise_io e = (\<lambda>h. (Inl e, h))"

definition bind_io :: "'a io \<Rightarrow> ('a \<Rightarrow> 'b io) \<Rightarrow> 'b io" where
  "bind_io m f = (\<lambda>h. case m h of (Inl e, h') \<Rightarrow> (Inl e, h') | (Inr x, h') \<Rightarrow> f x h')"

definition lift_io :: "error + 'a \<Rightarrow> 'a io" where
  "lift_io r = (\<lambda>h. (r, h))"

text \<open>\<open>requests.get(url)\<close>: the request is issued, then the service answers or fails.\<close>

definition requests_get :: "world \<Rightarrow> request \<Rightarrow> pyval io" where
  "requests_get w req =
     (\<lambda>h. case http w h req of
             Failed \<Rightarrow> (Inl RequestError, h @ [req])
           | Body b \<Rightarrow> (Inr b, h @ [req]))"

text \<open>\<open>all_devices[device]\<close> and \<open>all_devices[device]["default"]\<close>, \<open>["group"]\<close>.\<close>

definition lookup_device :: "config \<Rightarrow> string \<Rightarrow> error + device" where
  "lookup_device cfg name =
     (case map_of (all_devices cfg) name of None \<Rightarrow> Inl KeyError | Some dev \<Rightarrow> Inr dev)"

definition lookup_default :: "config \<Rightarrow> string \<Rightarrow> error + int" where
  "lookup_default cfg name =
     (case lookup_device cfg name of
        Inl e \<Rightarrow> Inl e
      | Inr dev \<Rightarrow> (case default_state dev of None \<Rightarrow> Inl KeyError | Some d \<Rightarrow> Inr d))"

definition lookup_group :: "config \<Rightarrow> string \<Rightarrow> error + string" where
  "lookup_group cfg name =
     (case lookup_device cfg name of
        Inl e \<Rightarrow> Inl e
      | Inr dev \<Rightarrow> (case group_name dev of None \<Rightarrow> Inl KeyError | Some g \<Rightarrow> Inr g))"

section \<open>The remote endpoint client\<close>

definition set_to_state :: "world \<Rightarrow> config \<Rightarrow> string \<Rightarrow> pyval \<Rightarrow> unit io" where
  "set_to_state w cfg name v =
     bind_io (lift_io (lookup_default cfg name)) (\<lambda>d.
     bind_io (lift_io (process_pin w v d)) (\<lambda>v'.
     bind_io (lift_io (lookup_device cfg name)) (\<lambda>dev.
     bind_io (requests_get w (Update (auth dev) (pin dev) v')) (\<lambda>_. return_io ()))))"

text \<open>\<open>state in (0, 1)\<close>: Python compares with \<open>==\<close>, across int and float.\<close>

fun py_eq_int :: "pynum \<Rightarrow> int \<Rightarrow> bool" where
  "py_eq_int (PInt i) k = (i = k)"
| "py_eq_int (PFloat (Finite q)) k = (q = of_int k)"
| "py_eq_int (PFloat PosInf) k = False"
| "py_eq_int (PFloat NegInf) k = False"
| "py_eq_int (PFloat NaN) k = False"

definition in_0_1 :: "pynum \<Rightarrow> bool" where
  "in_0_1 st = (py_eq_int st 0 \<or> py_eq_int st 1)"

definition get_state :: "world \<Rightarrow> config \<Rightarrow> string \<Rightarrow> pynum io" where
  "get_state w cfg name =
     bind_io (lift_io (lookup_device cfg name)) (\<lambda>dev.
     bind_io (requests_get w (Get (auth dev) (pin dev))) (\<lambda>b.
     bind_io (lift_io (process_pin w b 0)) (\<lambda>st.
       if \<not> in_0_1 st \<or> name \<in> set (exclude cfg) then return_io st
       else bind_io (lift_io (lookup_default cfg name)) (\<lambda>d.
            lift_io (process_pin w (VNum st) d)))))"

text \<open>\<open>x ^ 1\<close> on the result of a read: defined on ints, TypeError on a float.\<close>

fun py_xor_1 :: "pynum \<Rightarrow> error + pynum" where
  "py_xor_1 (PInt i) = Inr (PInt (i XOR 1))"
| "py_xor_1 (PFloat f) = Inl TypeError"

definition flip_state :: "world \<Rightarrow> config \<Rightarrow> string \<Rightarrow> unit io" where
  "flip_state w cfg name =
     bind_io (get_state w cfg name) (\<lambda>st.
     bind_io (lift_io (py_xor_1 st)) (\<lambda>v.
     set_to_state w cfg name (VNum v)))"

fun apply_function :: "string list \<Rightarrow> (string \<Rightarrow> unit io) \<Rightarrow> unit io" where
  "apply_function [] func = return_io ()"
| "apply_function (name # names) func = bind_io (func name) (\<lambda>_. apply_function names func)"

section \<open>Presentation\<close>

text \<open>\<open>status[device] = v\<close> on an insertion-ordered dict: a known key keeps its place.\<close>

fun dict_set :: "(string \<times> 'v) list \<Rightarrow> string \<Rightarrow> 'v \<Rightarrow> (string \<times> 'v) list" where
  "dict_set [] k v = [(k, v)]"
| "dict_set ((k', v') # kvs) k v =
     (if k' = k then (k, v) # kvs else (k', v') # dict_set kvs k v)"

fun status_loop :: "world \<Rightarrow> config \<Rightarrow> string list \<Rightarrow> (string \<times> pynum) list
                    \<Rightarrow> (string \<times> pynum) list io" where
  "status_loop w cfg [] status = return_io status"
| "status_loop w cfg (name # names) status =
     bind_io (get_state w cfg name) (\<lambda>st. status_loop w cfg names (dict_set status name st))"

definition get_status_as_dict :: "world \<Rightarrow> config \<Rightarrow> string list \<Rightarrow> (string \<times> pynum) list io" where
  "get_status_as_dict w cfg names = status_loop w cfg names []"

fun digits :: "nat \<Rightarrow> string" where
  "digits n =
     (if n < 10 then [''0123456789'' ! n]
      else digits (n div 10) @ [''0123456789'' ! (n mod 10)])"

declare digits.simps [simp del]

definition str_of_int :: "int \<Rightarrow> string" where
  "str_of_int i = (if i < 0 then CHR ''-'' # digits (nat (- i)) else digits (nat i))"

definition str_of_num :: "world \<Rightarrow> pynum \<Rightarrow> string" where
  "str_of_num w x = (case x of PInt i \<Rightarrow> str_of_int i | PFloat f \<Rightarrow> str_of_float w f)"

text \<open>The format specification \<open>: <n\<close>: left-aligned, filled with spaces up to width \<open>n\<close>.\<close>

definition ljust :: "string \<Rightarrow> nat \<Rightarrow> string" where
  "ljust s n = s @ replicate (n - length s) CHR '' ''"

definition table_row :: "world \<Rightarrow> nat \<Rightarrow> string \<times> pynum \<Rightarrow> string" where
  "table_row w max_len kv =
     ljust (fst kv) max_len @ '': '' @ ljust (str_of_num w (snd kv)) 3 @ [CHR '' '', CHR 0x0A]"

text \<open>
  The part of \<open>print_status\<close> after the reads: \<open>max\<close> of no lengths raises ValueError;
  \<open>table[:-1:]\<close> drops the last character.
\<close>

definition format_table :: "world \<Rightarrow> (string \<times> pynum) list \<Rightarrow> error + string" where
  "format_table w status_dict =
     (if status_dict = [] then Inl ValueError
      else
        let max_len = Max (set (map (\<lambda>kv. length (fst kv)) status_dict)) + 1
        in Inr (butlast (concat (map (table_row w max_len) status_dict))))"

definition print_status :: "world \<Rightarrow> config \<Rightarrow> string list \<Rightarrow> string io" where
  "print_status w cfg names =
     bind_io (get_status_as_dict w cfg names) (\<lambda>status_dict.
     lift_io (format_table w status_dict))"

section \<open>The device resolver\<close>

definition choose_devices :: "config \<Rightarrow> string \<Rightarrow> string list \<Rightarrow> error + string list" where
  "choose_devices cfg action args =
     (case args of
        [] \<Rightarrow> Inl IndexError
      | a0 # _ \<Rightarrow>
          if a0 \<in> set [''all'', ''a'']
          then Inr (filter (\<lambda>x. x \<notin> set (exclude cfg) \<or> take 1 action \<in> set [''s'', ''p''])
                      (map fst (all_devices cfg)))
          else if a0 \<in> set (groups cfg)
          then Inr (filter (\<lambda>x. (case map_of (all_devices cfg) x of
                                     None \<Rightarrow> False
                                   | Some dev \<Rightarrow> Some a0 = group_name dev)
                                \<and> (x \<notin> set (exclude cfg) \<or> take 1 action \<in> set [''s'', ''p'']))
                      (map fst (all_devices cfg)))
          else Inr args)"

section \<open>The action dispatcher\<close>

fun map_err :: "('a \<Rightarrow> error + 'b) \<Rightarrow> 'a list \<Rightarrow> error + 'b list" where
  "map_err f [] = Inr []"
| "map_err f (x # xs) =
     (case f x of
        Inl e \<Rightarrow> Inl e
      | Inr y \<Rightarrow> (case map_err f xs of Inl e \<Rightarrow> Inl e | Inr ys \<Rightarrow> Inr (y # ys)))"

text \<open>
  The comprehension of the \<open>just\<close> branch over \<open>all_devices.keys()\<close>. Its condition is
  evaluated left to right and stops at the first false conjunct: the group of an excluded
  device is never looked up, and the groups of the arguments are computed anew for each
  device that is not excluded.
\<close>

fun devices_to_turn_off :: "config \<Rightarrow> string list \<Rightarrow> string list \<Rightarrow> error + string list" where
  "devices_to_turn_off cfg args [] = Inr []"
| "devices_to_turn_off cfg args (name # names) =
     (if name \<in> set (exclude cfg) then devices_to_turn_off cfg args names
      else case lookup_group cfg name of
             Inl e \<Rightarrow> Inl e
           | Inr g \<Rightarrow>
               (case map_err (lookup_group cfg) args of
                  Inl e \<Rightarrow> Inl e
                | Inr gs \<Rightarrow>
                    (case devices_to_turn_off cfg args names of
                       Inl e \<Rightarrow> Inl e
                     | Inr rest \<Rightarrow>
                         Inr (if g \<in> set gs \<and> name \<notin> set args then name # rest else rest))))"

text \<open>What \<open>take_action\<close> hands to \<open>print\<close>.\<close>

datatype printed = Table string | Scalar pynum | Mapping "(string \<times> pynum) list"

definition take_action :: "world \<Rightarrow> config \<Rightarrow> string \<Rightarrow> string list \<Rightarrow> printed option io" where
  "take_action w cfg action args =
     (if take 1 action = ''f'' then
        bind_io (apply_function args (flip_state w cfg)) (\<lambda>_. return_io None)
      else if take 2 action = ''of'' then
        bind_io (apply_function args (\<lambda>name. set_to_state w cfg name (VNum (PInt 0))))
          (\<lambda>_. return_io None)
      else if action = ''on'' then
        bind_io (apply_function args (\<lambda>name. set_to_state w cfg name (VNum (PInt 1))))
          (\<lambda>_. return_io None)
      else if take 1 action = ''j'' then
        bind_io (apply_function args (\<lambda>name. set_to_state w cfg name (VNum (PInt 1)))) (\<lambda>_.
        bind_io (lift_io (devices_to_turn_off cfg args (map fst (all_devices cfg)))) (\<lambda>offs.
        bind_io (apply_function offs (\<lambda>name. set_to_state w cfg name (VNum (PInt 0))))
          (\<lambda>_. return_io None)))
      else if take 1 action = ''p'' then
        bind_io (print_status w cfg args) (\<lambda>table. return_io (Some (Table table)))
      else if take 1 action = ''s'' then
        (case args of
           [name] \<Rightarrow> bind_io (get_state w cfg name) (\<lambda>st. return_io (Some (Scalar st)))
         | _ \<Rightarrow> bind_io (get_status_as_dict w cfg args) (\<lambda>d. return_io (Some (Mapping d))))
      else
        (case float_of_str w action of
           None \<Rightarrow> raise_io ValueError
         | Some f \<Rightarrow>
             bind_io (apply_function args (\<lambda>name. set_to_state w cfg name (VNum (PFloat f))))
               (\<lambda>_. return_io None)))"

section \<open>Notions used to state the properties\<close>

text \<open>
  Rows separated by a newline, with none after the last row.
\<close>

fun join_lines :: "string list \<Rightarrow> string" where
  "join_lines [] = []"
| "join_lines [r] = r"
| "join_lines (r # r' # rs) = r @ CHR 0x0A # join_lines (r' # rs)"



text \<open>
  The value that an action writes to every device it is given: \<open>0\<close> for off, \<open>1\<close> for on
  and just, the parsed number for a numeric set. Flip, print and status have none.
\<close>

definition write_value :: "world \<Rightarrow> string \<Rightarrow> pyval option" where
  "write_value w action =
     (if take 1 action = ''f'' then None
      else if take 2 action = ''of'' then Some (VNum (PInt 0))
      else if action = ''on'' then Some (VNum (PInt 1))
      else if take 1 action = ''j'' then Some (VNum (PInt 1))
      else if take 1 action = ''p'' then None
      else if take 1 action = ''s'' then None
      else (case float_of_str w action of None \<Rightarrow> None | Some f \<Rightarrow> Some (VNum (PFloat f))))"

text \<open>
  A world to run the model in: the service answers every request with the same first
  element, and \<open>0.5\<close> is the one float literal.
\<close>

definition sample_world :: "pyval \<Rightarrow> world" where
  "sample_world b =
     \<lparr>float_of_str = (\<lambda>s. if s = ''0.5'' then Some (Finite (1 / 2)) else None),
      str_of_float = (\<lambda>f. ''0.5''),
      http = (\<lambda>h r. Body b)\<rparr>"


section \<open>Running the model\<close>

lemmas run_defs =
  get_state_def set_to_state_def flip_state_def lookup_device_def lookup_default_def
  lookup_group_def requests_get_def process_pin_def py_float_def float_of_int_def in_0_1_def
  blynk_config_def sample_world_def bind_io_def lift_io_def return_io_def raise_io_def

lemma take_1_eq: "take 1 xs = [c] \<Longrightarrow> \<exists>t. xs = c # t"
  by (cases xs) auto

lemma take_2_eq: "take 2 xs = [a, b] \<Longrightarrow> \<exists>t. xs = a # b # t"
  by (cases xs; cases "tl xs") (auto simp: numeral_2_eq_2)

section \<open>The pin value codec is an involution on booleans\<close>

lemma float_of_int_small: "\<bar>i\<bar> < 2 ^ 53 \<Longrightarrow> float_of_int i = Inr (Finite (of_int i))"
proof -
  assume "\<bar>i\<bar> < 2 ^ 53"
  then have "nat \<bar>i\<bar> < 2 ^ 53" by (simp add: nat_less_iff)
  then show ?thesis by (simp add: float_of_int_def Let_def)
qed

lemma process_pin_small_int:
  "\<bar>i\<bar> < 2 ^ 53 \<Longrightarrow> process_pin w (VNum (PInt i)) d = Inr (PInt (i XOR d))"
  by (simp add: process_pin_def py_float_def float_of_int_small)

lemma process_pin_small_float:
  "\<bar>i\<bar> < 2 ^ 53 \<Longrightarrow> process_pin w (VNum (PFloat (Finite (of_int i)))) d = Inr (PInt (i XOR d))"
  by (simp add: process_pin_def py_float_def)

text \<open>
  Claim C1. For every \<open>v\<close> in \<open>{0, 1}\<close> and every default flag \<open>d\<close> in \<open>{0, 1}\<close>,
  \<open>process_pin(process_pin(v, d), d)\<close> returns, and returns \<open>v\<close>; the same holds when
  \<open>v\<close> is given as the float \<open>0.0\<close> or \<open>1.0\<close>.
\<close>

theorem process_pin_involution:
  assumes "v \<in> {0, 1}" and "d \<in> {0, 1}"
  shows "process_pin_twice w (VNum (PInt v)) d = Inr (PInt v)
         \<and> process_pin_twice w (VNum (PFloat (Finite (of_int v)))) d = Inr (PInt v)"
proof -
  have x: "v XOR d \<in> {0, 1}" and inv: "(v XOR d) XOR d = v"
    using assms by auto
  have "process_pin w (VNum (PInt v)) d = Inr (PInt (v XOR d))"
    using assms by (intro process_pin_small_int) auto
  moreover have "process_pin w (VNum (PFloat (Finite (of_int v)))) d = Inr (PInt (v XOR d))"
    using assms by (intro process_pin_small_float) auto
  moreover have "process_pin w (VNum (PInt (v XOR d))) d = Inr (PInt ((v XOR d) XOR d))"
    using x by (intro process_pin_small_int) auto
  ultimately show ?thesis
    by (simp add: process_pin_twice_def inv)
qed

theorem process_pin_involution_witness:
  "(1::int) \<in> {0, 1} \<and> (1::int) \<in> {0, 1}
   \<and> process_pin_twice (sample_world VNone) (VNum (PInt 1)) 1 = Inr (PInt 1)"
  using process_pin_involution [of 1 1 "sample_world VNone"] by simp

section \<open>Reading a device\<close>

lemma process_pin_PFloat:
  "process_pin w b d = Inr (PFloat f) \<Longrightarrow> \<not> is_integer f"
  by (auto simp: process_pin_def split: sum.splits if_splits)

lemma decoded_float_not_0_1:
  assumes "process_pin w b d = Inr (PFloat f)"
  shows "\<not> in_0_1 (PFloat f)"
proof -
  have "\<not> is_integer f" using assms by (rule process_pin_PFloat)
  then show ?thesis by (cases f) (auto simp: in_0_1_def)
qed

text \<open>
  Claim C2. A read of a configured device whose response decodes to \<open>st\<close> issues one get
  request and inverts \<open>st\<close> with the device's default exactly when \<open>st\<close> is the whole
  number 0 or 1 and the device is not excluded (KeyError if such a device has no default);
  any other whole number, any fraction, and any value of an excluded device is returned as
  decoded.
\<close>

theorem get_state_inversion:
  assumes dev: "map_of (all_devices cfg) name = Some dev"
    and reply: "http w h (Get (auth dev) (pin dev)) = Body b"
    and decoded: "process_pin w b 0 = Inr st"
  shows "get_state w cfg name h =
           (case st of
              PInt v \<Rightarrow>
                if (v = 0 \<or> v = 1) \<and> name \<notin> set (exclude cfg)
                then (case default_state dev of
                        None \<Rightarrow> Inl KeyError
                      | Some d \<Rightarrow> Inr (PInt (v XOR d)))
                else Inr (PInt v)
            | PFloat f \<Rightarrow> Inr (PFloat f),
            h @ [Get (auth dev) (pin dev)])"
proof (cases st)
  case (PInt v)
  have small: "(v = 0 \<or> v = 1) \<Longrightarrow> process_pin w (VNum (PInt v)) d = Inr (PInt (v XOR d))" for d
    by (rule process_pin_small_int) auto
  show ?thesis
    using dev reply decoded PInt small
    by (auto simp: get_state_def lookup_device_def lookup_default_def requests_get_def
        bind_io_def lift_io_def return_io_def in_0_1_def split: option.splits)
next
  case (PFloat f)
  then have "\<not> in_0_1 st" using decoded decoded_float_not_0_1 by blast
  then show ?thesis
    using dev reply decoded PFloat
    by (simp add: get_state_def lookup_device_def requests_get_def
        bind_io_def lift_io_def return_io_def)
qed

theorem get_state_inversion_witness:
  "map_of (all_devices blynk_config) ''kitchen_light''
     = Some \<lparr>pin = ''d2'', auth = ''<auth_token>'',
              default_state = Some 1, group_name = Some ''kitchen''\<rparr>
   \<and> http (sample_world (VNum (PInt 1))) [] (Get ''<auth_token>'' ''d2'') = Body (VNum (PInt 1))
   \<and> process_pin (sample_world (VNum (PInt 1))) (VNum (PInt 1)) 0 = Inr (PInt 1)
   \<and> get_state (sample_world (VNum (PInt 1))) blynk_config ''kitchen_light'' []
       = (Inr (PInt 0), [Get ''<auth_token>'' ''d2''])"
proof -
  let ?dev = "\<lparr>pin = ''d2'', auth = ''<auth_token>'',
                default_state = Some 1, group_name = Some ''kitchen''\<rparr>"
  let ?w = "sample_world (VNum (PInt 1))"
  have 1: "map_of (all_devices blynk_config) ''kitchen_light'' = Some ?dev"
    by (simp add: blynk_config_def)
  have 2: "http ?w [] (Get (auth ?dev) (pin ?dev)) = Body (VNum (PInt 1))"
    by (simp add: sample_world_def)
  have 3: "process_pin ?w (VNum (PInt 1)) 0 = Inr (PInt 1)"
    by (simp add: process_pin_def py_float_def float_of_int_def)
  have 4: "''kitchen_light'' \<notin> set (exclude blynk_config)"
    by (simp add: blynk_config_def)
  from get_state_inversion [OF 1 2 3] 1 2 3 4 show ?thesis by simp
qed

section \<open>Resolving devices\<close>

text \<open>
  Claim C3. When the first token is \<open>all\<close> or \<open>a\<close>, whatever the action and the further
  tokens, the resolver returns every key of the table for an action that starts with
  \<open>s\<close> or \<open>p\<close> (status, print), and every key outside the exclusion set otherwise.
\<close>

theorem choose_devices_all:
  assumes "a0 = ''all'' \<or> a0 = ''a''"
  shows "choose_devices cfg action (a0 # others) =
           Inr (if take 1 action = ''s'' \<or> take 1 action = ''p''
                then map fst (all_devices cfg)
                else filter (\<lambda>x. x \<notin> set (exclude cfg)) (map fst (all_devices cfg)))"
  using assms by (auto simp: choose_devices_def)

theorem choose_devices_all_witness:
  "(''all'' = ''all'' \<or> ''all'' = ''a'')
   \<and> choose_devices blynk_config ''on'' [''all'', ''kitchen''] =
       Inr [''bedroom_light'', ''kitchen_light'']
   \<and> choose_devices blynk_config ''status'' [''all''] =
       Inr [''bedroom_light'', ''kitchen_light'', ''temperature'', ''humidity'']"
  using choose_devices_all [of "''all''" blynk_config "''on''" "[''kitchen'']"]
    choose_devices_all [of "''all''" blynk_config "''status''" "[]"]
  by (simp add: blynk_config_def)

lemma filter_keys_map_of:
  assumes "distinct (map fst kvs)"
  shows "filter (\<lambda>k. (case map_of kvs k of None \<Rightarrow> False | Some v \<Rightarrow> P v) \<and> Q k) (map fst kvs)
         = map fst (filter (\<lambda>kv. P (snd kv) \<and> Q (fst kv)) kvs)"
proof -
  have "filter (\<lambda>kv. (case map_of kvs (fst kv) of None \<Rightarrow> False | Some v \<Rightarrow> P v) \<and> Q (fst kv)) kvs
        = filter (\<lambda>kv. P (snd kv) \<and> Q (fst kv)) kvs"
  proof (rule filter_cong[OF refl])
    fix kv assume "kv \<in> set kvs"
    then have "(fst kv, snd kv) \<in> set kvs" by simp
    then have "map_of kvs (fst kv) = Some (snd kv)"
      using assms by (simp only: map_of_eq_Some_iff)
    then show "((case map_of kvs (fst kv) of None \<Rightarrow> False | Some v \<Rightarrow> P v) \<and> Q (fst kv))
               = (P (snd kv) \<and> Q (fst kv))" by simp
  qed
  then show ?thesis by (simp add: filter_map comp_def)
qed

text \<open>
  Claim C5. When the first token is a configured group name (and not the wildcard, which
  is tested first), the resolver returns, in the order of the table, exactly the devices
  whose \<open>group\<close> entry is that name, without the excluded ones unless the action starts
  with \<open>s\<close> or \<open>p\<close>. The keys of the table are distinct, as those of a dict are.
\<close>

theorem choose_devices_group:
  assumes g: "g \<in> set (groups cfg)"
    and not_wild: "g \<noteq> ''all''" "g \<noteq> ''a''"
    and keys: "distinct (map fst (all_devices cfg))"
  shows "choose_devices cfg action (g # others) =
           Inr (map fst (filter (\<lambda>kv. group_name (snd kv) = Some g
                                     \<and> (fst kv \<notin> set (exclude cfg)
                                        \<or> take 1 action = ''s'' \<or> take 1 action = ''p''))
                           (all_devices cfg)))"
proof -
  have "choose_devices cfg action (g # others) =
          Inr (filter (\<lambda>x. (case map_of (all_devices cfg) x of
                                None \<Rightarrow> False | Some dev \<Rightarrow> Some g = group_name dev)
                           \<and> (x \<notin> set (exclude cfg) \<or> take 1 action \<in> set [''s'', ''p'']))
                 (map fst (all_devices cfg)))"
    using g not_wild by (simp add: choose_devices_def)
  also have "\<dots> = Inr (map fst (filter (\<lambda>kv. Some g = group_name (snd kv)
                        \<and> (fst kv \<notin> set (exclude cfg) \<or> take 1 action \<in> set [''s'', ''p'']))
                           (all_devices cfg)))"
    using filter_keys_map_of [OF keys] by simp
  finally show ?thesis by (simp add: eq_commute)
qed

theorem choose_devices_group_witness:
  "''kitchen'' \<in> set (groups blynk_config) \<and> ''kitchen'' \<noteq> ''all'' \<and> ''kitchen'' \<noteq> ''a''
   \<and> distinct (map fst (all_devices blynk_config))
   \<and> choose_devices blynk_config ''off'' [''kitchen'', ''bedroom''] = Inr [''kitchen_light'']"
proof -
  have 1: "''kitchen'' \<in> set (groups blynk_config)" by (simp add: blynk_config_def)
  have 2: "''kitchen'' \<noteq> ''all''" and 3: "''kitchen'' \<noteq> ''a''" by simp_all
  have 4: "distinct (map fst (all_devices blynk_config))" by (simp add: blynk_config_def)
  from choose_devices_group [OF 1 2 3 4, of "''off''" "[''bedroom'']"] 1 4
  show ?thesis by (simp add: blynk_config_def)
qed

section \<open>Writing to devices\<close>

lemma set_to_state_int:
  assumes "map_of (all_devices cfg) name = Some dev" and "default_state dev = Some d"
    and "\<bar>v\<bar> < 2 ^ 53"
  shows "set_to_state w cfg name (VNum (PInt v)) h =
           (if http w h (Update (auth dev) (pin dev) (PInt (v XOR d))) = Failed
            then Inl RequestError else Inr (),
            h @ [Update (auth dev) (pin dev) (PInt (v XOR d))])"
  using assms
  by (simp add: set_to_state_def lookup_default_def lookup_device_def process_pin_small_int
      requests_get_def bind_io_def lift_io_def return_io_def split: reply.splits)

lemma take_action_off:
  assumes "take 2 action = ''of''"
  shows "take_action w cfg action args =
           bind_io (apply_function args (\<lambda>name. set_to_state w cfg name (VNum (PInt 0))))
             (\<lambda>_. return_io None)"
proof -
  from take_2_eq [OF assms] obtain t where "action = CHR ''o'' # CHR ''f'' # t" ..
  then show ?thesis by (simp add: take_action_def numeral_2_eq_2)
qed

lemma take_action_on:
  "take_action w cfg ''on'' args =
     bind_io (apply_function args (\<lambda>name. set_to_state w cfg name (VNum (PInt 1))))
       (\<lambda>_. return_io None)"
  by (simp add: take_action_def numeral_2_eq_2)

lemma take_action_just:
  assumes "take 1 action = ''j''"
  shows "take_action w cfg action args =
        bind_io (apply_function args (\<lambda>name. set_to_state w cfg name (VNum (PInt 1)))) (\<lambda>_.
        bind_io (lift_io (devices_to_turn_off cfg args (map fst (all_devices cfg)))) (\<lambda>offs.
        bind_io (apply_function offs (\<lambda>name. set_to_state w cfg name (VNum (PInt 0))))
          (\<lambda>_. return_io None)))"
proof -
  from take_1_eq [OF assms] obtain t where "action = CHR ''j'' # t" ..
  then show ?thesis by (simp add: take_action_def numeral_2_eq_2)
qed

lemma take_action_flip:
  assumes "take 1 action = ''f''"
  shows "take_action w cfg action args =
           bind_io (apply_function args (flip_state w cfg)) (\<lambda>_. return_io None)"
  using assms by (simp add: take_action_def)

lemma take_action_number:
  assumes "take 1 action \<noteq> ''f''" and "take 2 action \<noteq> ''of''" and "action \<noteq> ''on''"
    and "take 1 action \<noteq> ''j''" and "take 1 action \<noteq> ''p''" and "take 1 action \<noteq> ''s''"
    and "float_of_str w action = Some f"
  shows "take_action w cfg action args =
           bind_io (apply_function args (\<lambda>name. set_to_state w cfg name (VNum (PFloat f))))
             (\<lambda>_. return_io None)"
  using assms by (simp add: take_action_def)













text \<open>
  Claim C6. For a device with default 1 whose read returns logical 0, flip calls the write
  with logical value 1, and the request issued carries the raw value 0. The theorem needs
  no assumption on the exclusion set.
\<close>

theorem flip_writes_raw_0:
  assumes dev: "map_of (all_devices cfg) name = Some dev"
    and one: "default_state dev = Some 1"
    and read: "get_state w cfg name h = (Inr (PInt 0), h')"
  shows "flip_state w cfg name h = set_to_state w cfg name (VNum (PInt 1)) h'
         \<and> set_to_state w cfg name (VNum (PInt 1)) h' =
             (if http w h' (Update (auth dev) (pin dev) (PInt 0)) = Failed
              then Inl RequestError else Inr (),
              h' @ [Update (auth dev) (pin dev) (PInt 0)])"
proof
  show "flip_state w cfg name h = set_to_state w cfg name (VNum (PInt 1)) h'"
    using read by (simp add: flip_state_def bind_io_def lift_io_def)
  show "set_to_state w cfg name (VNum (PInt 1)) h' =
          (if http w h' (Update (auth dev) (pin dev) (PInt 0)) = Failed
           then Inl RequestError else Inr (),
           h' @ [Update (auth dev) (pin dev) (PInt 0)])"
    using set_to_state_int [OF dev one, of 1 w h'] by simp
qed

theorem flip_writes_raw_0_witness:
  "map_of (all_devices blynk_config) ''kitchen_light''
     = Some \<lparr>pin = ''d2'', auth = ''<auth_token>'',
              default_state = Some 1, group_name = Some ''kitchen''\<rparr>
   \<and> get_state (sample_world (VNum (PInt 1))) blynk_config ''kitchen_light'' []
       = (Inr (PInt 0), [Get ''<auth_token>'' ''d2''])
   \<and> flip_state (sample_world (VNum (PInt 1))) blynk_config ''kitchen_light'' []
       = (Inr (), [Get ''<auth_token>'' ''d2'', Update ''<auth_token>'' ''d2'' (PInt 0)])"
proof -
  let ?dev = "\<lparr>pin = ''d2'', auth = ''<auth_token>'',
                default_state = Some 1, group_name = Some ''kitchen''\<rparr>"
  let ?w = "sample_world (VNum (PInt 1))"
  have 1: "map_of (all_devices blynk_config) ''kitchen_light'' = Some ?dev"
    by (simp add: blynk_config_def)
  have 2: "default_state ?dev = Some 1" by simp
  have 3: "get_state ?w blynk_config ''kitchen_light'' [] = (Inr (PInt 0), [Get ''<auth_token>'' ''d2''])"
    by (simp add: run_defs)
  have 4: "http ?w h r \<noteq> Failed" for h r by (simp add: sample_world_def)
  from flip_writes_raw_0 [OF 1 2 3] 1 3 4 show ?thesis by simp
qed

section \<open>Status and table output\<close>











lemma butlast_rows:
  "rows \<noteq> [] \<Longrightarrow> butlast (concat (map (\<lambda>r. r @ [CHR 0x0A]) rows)) = join_lines rows"
  by (induction rows rule: join_lines.induct) (simp_all add: butlast_append)

lemma table_row_split:
  "table_row w n kv =
     (ljust (fst kv) n @ '': '' @ ljust (str_of_num w (snd kv)) 3 @ '' '') @ [CHR 0x0A]"
  by (simp add: table_row_def)

lemma length_ljust: "length (ljust s n) = max n (length s)"
  by (simp add: ljust_def)

text \<open>
  Claim C8. For a non-empty mapping the table is one row per entry, rows separated by a
  newline with none after the last; a row is the name filled with spaces to the length of
  the longest name plus one, a colon and a space, the state filled with spaces to width 3
  (longer states are kept whole), and a space. For \<open>{"a": 1, "bb": 0}\<close> these are two rows
  with a name column of width 3.
\<close>

theorem format_table_rows:
  assumes "status_dict \<noteq> []"
  shows "(let width = Max (set (map (\<lambda>kv. length (fst kv)) status_dict)) + 1 in
            format_table w status_dict =
              Inr (join_lines (map (\<lambda>kv. ljust (fst kv) width @ '': ''
                                         @ ljust (str_of_num w (snd kv)) 3 @ '' '')
                                 status_dict))
            \<and> (\<forall>kv\<in>set status_dict.
                  length (ljust (fst kv) width) = width
                  \<and> length (ljust (str_of_num w (snd kv)) 3)
                      = max 3 (length (str_of_num w (snd kv)))))
         \<and> format_table w [(''a'', PInt 1), (''bb'', PInt 0)] =
             Inr (''a  : 1   '' @ [CHR 0x0A] @ ''bb : 0   '')"
proof -
  define width where "width = Max (set (map (\<lambda>kv. length (fst kv)) status_dict)) + 1"
  have rows: "map (table_row w width) status_dict =
        map (\<lambda>r. r @ [CHR 0x0A])
          (map (\<lambda>kv. ljust (fst kv) width @ '': '' @ ljust (str_of_num w (snd kv)) 3 @ '' '')
             status_dict)"
    by (simp add: table_row_split comp_def)
  have 1: "format_table w status_dict =
        Inr (join_lines (map (\<lambda>kv. ljust (fst kv) width @ '': ''
                                         @ ljust (str_of_num w (snd kv)) 3 @ '' '')
                                 status_dict))"
  proof -
    have "butlast (concat (map (table_row w width) status_dict)) =
            join_lines (map (\<lambda>kv. ljust (fst kv) width @ '': ''
                                         @ ljust (str_of_num w (snd kv)) 3 @ '' '')
                                 status_dict)"
      unfolding rows using assms by (intro butlast_rows) simp
    then show ?thesis
      using assms by (simp add: format_table_def Let_def width_def)
  qed
  have 2: "length (ljust (fst kv) width) = width" if "kv \<in> set status_dict" for kv
  proof -
    have "length (fst kv) \<in> set (map (\<lambda>kv. length (fst kv)) status_dict)"
      using that by auto
    then have "length (fst kv) \<le> Max (set (map (\<lambda>kv. length (fst kv)) status_dict))"
      by (intro Max_ge) auto
    then show ?thesis by (simp add: length_ljust width_def)
  qed
  have 3: "format_table w [(''a'', PInt 1), (''bb'', PInt 0)] =
             Inr (''a  : 1   '' @ [CHR 0x0A] @ ''bb : 0   '')"
    by (simp add: format_table_def table_row_def ljust_def str_of_num_def str_of_int_def
        digits.simps eval_nat_numeral butlast_append)
  from 1 2 3 show ?thesis
    by (simp add: Let_def width_def length_ljust)
qed

theorem format_table_rows_witness:
  "[(''a'', PInt 1), (''bb'', PInt 0)] \<noteq> []
   \<and> format_table (sample_world VNone) [(''a'', PInt 1), (''bb'', PInt 0)] =
       Inr (join_lines [''a  : 1   '', ''bb : 0   ''])"
proof -
  have 1: "[(''a'', PInt 1), (''bb'', PInt 0)] \<noteq> []" by simp
  from format_table_rows [OF 1, of "sample_world VNone"] show ?thesis
    by (simp add: Let_def ljust_def str_of_num_def str_of_int_def digits.simps
        eval_nat_numeral)
qed

section \<open>Failures\<close>

text \<open>
  Claim C9. An action that matches none of the prefixes and that Python's float parser
  rejects makes the dispatch fail with ValueError, and no request is issued.
\<close>

theorem unknown_action_fails:
  assumes "take 1 action \<noteq> ''f''" and "take 2 action \<noteq> ''of''" and "action \<noteq> ''on''"
    and "take 1 action \<noteq> ''j''" and "take 1 action \<noteq> ''p''" and "take 1 action \<noteq> ''s''"
    and "float_of_str w action = None"
  shows "take_action w cfg action args h = (Inl ValueError, h)"
  using assms by (simp add: take_action_def raise_io_def)

theorem unknown_action_fails_witness:
  "take 1 ''xyz'' \<noteq> ''f'' \<and> take 2 ''xyz'' \<noteq> ''of'' \<and> ''xyz'' \<noteq> ''on''
   \<and> take 1 ''xyz'' \<noteq> ''j'' \<and> take 1 ''xyz'' \<noteq> ''p'' \<and> take 1 ''xyz'' \<noteq> ''s''
   \<and> float_of_str (sample_world VNone) ''xyz'' = None
   \<and> take_action (sample_world VNone) blynk_config ''xyz'' [''bedroom_light''] []
       = (Inl ValueError, [])"
proof -
  have 1: "take 1 ''xyz'' \<noteq> ''f''" and 2: "take 2 ''xyz'' \<noteq> ''of''" and 3: "''xyz'' \<noteq> ''on''"
    and 4: "take 1 ''xyz'' \<noteq> ''j''" and 5: "take 1 ''xyz'' \<noteq> ''p''"
    and 6: "take 1 ''xyz'' \<noteq> ''s''"
    by (simp_all add: numeral_2_eq_2)
  have 7: "float_of_str (sample_world VNone) ''xyz'' = None"
    by (simp add: sample_world_def)
  from unknown_action_fails [OF 1 2 3 4 5 6 7, of blynk_config "[''bedroom_light'']" "[]"]
    1 2 3 4 5 6 7
  show ?thesis by simp
qed

lemma set_to_state_no_default:
  assumes "map_of (all_devices cfg) name = Some dev" and "default_state dev = None"
  shows "set_to_state w cfg name v h = (Inl KeyError, h)"
  using assms
  by (simp add: set_to_state_def lookup_default_def lookup_device_def bind_io_def lift_io_def)

lemma get_state_log:
  assumes "map_of (all_devices cfg) name = Some dev"
  shows "snd (get_state w cfg name h) = h @ [Get (auth dev) (pin dev)]"
  using assms
  by (auto simp: get_state_def lookup_device_def lookup_default_def requests_get_def
      bind_io_def lift_io_def return_io_def split: reply.splits sum.splits)

lemma flip_state_no_default:
  assumes "map_of (all_devices cfg) name = Some dev" and "default_state dev = None"
  shows "flip_state w cfg name h =
           (case get_state w cfg name h of
              (Inl e, h') \<Rightarrow> (Inl e, h')
            | (Inr (PInt i), h') \<Rightarrow> (Inl KeyError, h')
            | (Inr (PFloat f), h') \<Rightarrow> (Inl TypeError, h'))"
  using set_to_state_no_default [OF assms]
  by (simp add: flip_state_def bind_io_def lift_io_def split: prod.splits sum.splits pynum.splits)

lemma apply_function_append:
  "apply_function (xs @ ys) func =
     bind_io (apply_function xs func) (\<lambda>_. apply_function ys func)"
  by (induction xs) (auto simp: bind_io_def return_io_def split: prod.splits sum.splits)

lemma apply_function_stops:
  assumes "\<And>h. func name h = (Inl e, h)"
  shows "apply_function (pre @ name # others) func h =
           (case apply_function pre func h of
              (Inl e', h') \<Rightarrow> (Inl e', h')
            | (Inr u, h') \<Rightarrow> (Inl e, h'))"
  by (simp add: apply_function_append bind_io_def assms split: prod.splits sum.splits)

lemma take_action_write_value:
  assumes "write_value w action = Some x"
  shows "take_action w cfg action args =
           (if take 1 action = ''j''
            then bind_io (apply_function args (\<lambda>name. set_to_state w cfg name x)) (\<lambda>_.
                 bind_io (lift_io (devices_to_turn_off cfg args (map fst (all_devices cfg))))
                   (\<lambda>offs.
                 bind_io (apply_function offs (\<lambda>name. set_to_state w cfg name (VNum (PInt 0))))
                   (\<lambda>_. return_io None)))
            else bind_io (apply_function args (\<lambda>name. set_to_state w cfg name x))
                   (\<lambda>_. return_io None))"
proof -
  have not_flip: "take 1 action \<noteq> ''f''"
    using assms by (auto simp: write_value_def)
  consider (off) "take 2 action = ''of''"
    | (on) "take 2 action \<noteq> ''of''" "action = ''on''"
    | (just) "take 2 action \<noteq> ''of''" "action \<noteq> ''on''" "take 1 action = ''j''"
    | (number) "take 2 action \<noteq> ''of''" "action \<noteq> ''on''" "take 1 action \<noteq> ''j''"
    by fastforce
  then show ?thesis
  proof cases
    case off
    from take_2_eq [OF off] obtain t where "action = CHR ''o'' # CHR ''f'' # t" ..
    then have "take 1 action \<noteq> ''j''" by simp
    moreover have "x = VNum (PInt 0)"
      using assms not_flip off by (simp add: write_value_def)
    ultimately show ?thesis by (simp add: take_action_off [OF off])
  next
    case on
    then have "x = VNum (PInt 1)"
      using assms by (simp add: write_value_def numeral_2_eq_2)
    then show ?thesis using on by (simp add: take_action_on)
  next
    case just
    then have "x = VNum (PInt 1)"
      using assms not_flip by (simp add: write_value_def)
    then show ?thesis using just by (simp add: take_action_just)
  next
    case number
    with assms not_flip have p: "take 1 action \<noteq> ''p''" and s: "take 1 action \<noteq> ''s''"
      by (auto simp: write_value_def split: if_splits)
    with assms not_flip number obtain f where f: "float_of_str w action = Some f"
      and x: "x = VNum (PFloat f)"
      by (auto simp: write_value_def split: option.splits)
    show ?thesis
      using number(3) x
      by (simp add: take_action_number [OF not_flip number(1) number(2) number(3) p s f])
  qed
qed

text \<open>
  Claim C10, as stated, fails for flip: flip reads the device before it writes, so a get
  request is issued for a device without default, and a fractional reading ends the flip
  with TypeError, not KeyError. Here the temperature sensor reads 21.5.
\<close>

theorem flip_excluded_counterexample:
  "take_action (sample_world (VNum (PFloat (Finite (43 / 2))))) blynk_config ''f''
     [''temperature''] []
   = (Inl TypeError, [Get ''<auth_token>'' ''V6''])"
  by code_simp

text \<open>
  Claim C10, amended. Let a device of the table have no default. On, off, just and a
  numeric set stop at that device with KeyError (unless a write to a device before it
  failed first), having issued the requests of the devices before it and none for it.
  Flip stops at that device too, after issuing the get request of its read and no update:
  with the error of the read if it failed, KeyError if it returned a whole number,
  TypeError if it returned a fraction.
\<close>

theorem write_without_default:
  assumes dev: "map_of (all_devices cfg) name = Some dev"
    and nodef: "default_state dev = None"
  shows "(write_value w action = Some x \<longrightarrow>
            take_action w cfg action (pre @ name # others) h =
              (case apply_function pre (\<lambda>n. set_to_state w cfg n x) h of
                 (Inl e, h') \<Rightarrow> (Inl e, h')
               | (Inr u, h') \<Rightarrow> (Inl KeyError, h')))
         \<and> (take 1 action = ''f'' \<longrightarrow>
            take_action w cfg action (pre @ name # others) h =
              (case apply_function pre (flip_state w cfg) h of
                 (Inl e, h') \<Rightarrow> (Inl e, h')
               | (Inr u, h') \<Rightarrow>
                   (case fst (get_state w cfg name h') of
                      Inl e \<Rightarrow> Inl e
                    | Inr (PInt i) \<Rightarrow> Inl KeyError
                    | Inr (PFloat f) \<Rightarrow> Inl TypeError,
                    h' @ [Get (auth dev) (pin dev)])))"
proof (intro conjI impI)
  assume wv: "write_value w action = Some x"
  have fails: "set_to_state w cfg name x h = (Inl KeyError, h)" for h
    by (rule set_to_state_no_default [OF dev nodef])
  have stop: "apply_function (pre @ name # others) (\<lambda>n. set_to_state w cfg n x) h =
           (case apply_function pre (\<lambda>n. set_to_state w cfg n x) h of
              (Inl e', h') \<Rightarrow> (Inl e', h')
            | (Inr u, h') \<Rightarrow> (Inl KeyError, h'))"
    by (rule apply_function_stops) (rule fails)
  show "take_action w cfg action (pre @ name # others) h =
              (case apply_function pre (\<lambda>n. set_to_state w cfg n x) h of
                 (Inl e, h') \<Rightarrow> (Inl e, h')
               | (Inr u, h') \<Rightarrow> (Inl KeyError, h'))"
    by (simp add: take_action_write_value [OF wv] bind_io_def stop
        split: prod.splits sum.splits)
next
  assume f: "take 1 action = ''f''"
  have one: "flip_state w cfg name h' =
          (case fst (get_state w cfg name h') of
                      Inl e \<Rightarrow> Inl e
                    | Inr (PInt i) \<Rightarrow> Inl KeyError
                    | Inr (PFloat f) \<Rightarrow> Inl TypeError,
                    h' @ [Get (auth dev) (pin dev)])" for h'
    using get_state_log [OF dev, of w h']
    by (auto simp: flip_state_no_default [OF dev nodef]
        split: prod.splits sum.splits pynum.splits)
  show "take_action w cfg action (pre @ name # others) h =
              (case apply_function pre (flip_state w cfg) h of
                 (Inl e, h') \<Rightarrow> (Inl e, h')
               | (Inr u, h') \<Rightarrow>
                   (case fst (get_state w cfg name h') of
                      Inl e \<Rightarrow> Inl e
                    | Inr (PInt i) \<Rightarrow> Inl KeyError
                    | Inr (PFloat f) \<Rightarrow> Inl TypeError,
                    h' @ [Get (auth dev) (pin dev)]))"
    by (simp add: take_action_flip [OF f] apply_function_append bind_io_def one
        split: prod.splits sum.splits pynum.splits)
qed

theorem write_without_default_witness:
  "map_of (all_devices blynk_config) ''temperature''
     = Some \<lparr>pin = ''V6'', auth = ''<auth_token>'', default_state = None, group_name = None\<rparr>
   \<and> take_action (sample_world (VNum (PInt 21))) blynk_config ''on''
         [''bedroom_light'', ''temperature'', ''kitchen_light''] []
       = (Inl KeyError, [Update ''<auth_token>'' ''V3'' (PInt 1)])
   \<and> take_action (sample_world (VNum (PInt 21))) blynk_config ''flip'' [''temperature''] []
       = (Inl KeyError, [Get ''<auth_token>'' ''V6''])"
proof -
  let ?dev = "\<lparr>pin = ''V6'', auth = ''<auth_token>'', default_state = None, group_name = None\<rparr>"
  let ?w = "sample_world (VNum (PInt 21))"
  have 1: "map_of (all_devices blynk_config) ''temperature'' = Some ?dev"
    by (simp add: blynk_config_def)
  have 2: "default_state ?dev = None" by simp
  have 3: "write_value ?w ''on'' = Some (VNum (PInt 1))"
    by (simp add: write_value_def numeral_2_eq_2)
  have 4: "apply_function [''bedroom_light''] (\<lambda>n. set_to_state ?w blynk_config n (VNum (PInt 1))) []
             = (Inr (), [Update ''<auth_token>'' ''V3'' (PInt 1)])"
    by (simp add: run_defs)
  have 5: "get_state ?w blynk_config ''temperature'' [] = (Inr (PInt 21), [Get ''<auth_token>'' ''V6''])"
    by (simp add: run_defs)
  from write_without_default [OF 1 2, of ?w "''on''" "VNum (PInt 1)" "[''bedroom_light'']"
      "[''kitchen_light'']" "[]"]
    write_without_default [OF 1 2, of ?w "''flip''" "VNone" "[]" "[]" "[]"] 1 3 4 5
  show ?thesis by (simp add: return_io_def)
qed

end
